theory Spec2Isabelle
  imports Main "HOL-Library.Word"
begin

section \<open>JavaScript strings\<close>

text \<open>
  A JavaScript string is a sequence of 16-bit code units. \<open>js\<close> writes an ASCII
  literal of the source as such a sequence.
\<close>

type_synonym code_unit = "16 word"
type_synonym jsstring = "code_unit list"

definition js :: "string \<Rightarrow> jsstring" where
  "js cs = map of_char cs"

text \<open>
  The character classes of ECMAScript regular expressions without the \<open>u\<close> and
  \<open>i\<close> flags: \<open>\w\<close> is \<open>[A-Za-z0-9_]\<close>, \<open>\s\<close> is WhiteSpace and
  LineTerminator.
\<close>

definition isWordChar :: "code_unit \<Rightarrow> bool" where
  "isWordChar c \<longleftrightarrow>
     (0x61 \<le> c \<and> c \<le> 0x7A) \<or> (0x41 \<le> c \<and> c \<le> 0x5A) \<or>
     (0x30 \<le> c \<and> c \<le> 0x39) \<or> c = 0x5F"

definition isWhiteSpace :: "code_unit \<Rightarrow> bool" where
  "isWhiteSpace c \<longleftrightarrow>
     (0x09 \<le> c \<and> c \<le> 0x0D) \<or> c = 0x20 \<or> c = 0xA0 \<or> c = 0x1680 \<or>
     (0x2000 \<le> c \<and> c \<le> 0x200A) \<or> c = 0x2028 \<or> c = 0x2029 \<or>
     c = 0x202F \<or> c = 0x205F \<or> c = 0x3000 \<or> c = 0xFEFF"

section \<open>The regular expressions of the source and their matcher\<close>

text \<open>
  The patterns of \<open>analyzeCode\<close> are sequences of: the assertion \<open>\b\<close>, literal
  text, an alternation of literal words, and a greedy \<open>*\<close> or \<open>+\<close> on one
  character class (\<open>\w\<close>, \<open>\s\<close>, \<open>[^x]\<close>).
\<close>

datatype cclass = WordClass | SpaceClass | NotChar code_unit

fun inClass :: "cclass \<Rightarrow> code_unit \<Rightarrow> bool" where
  "inClass WordClass c = isWordChar c"
| "inClass SpaceClass c = isWhiteSpace c"
| "inClass (NotChar x) c = (c \<noteq> x)"

datatype rterm =
    Boundary
  | Lit jsstring
  | Alt "jsstring list"
  | Star cclass
  | Plus cclass

type_synonym regexp = "rterm list"

text \<open>
  The backtracking matcher: \<open>matchSeq r s i\<close> lists the end positions of all matches of
  \<open>r\<close> in \<open>s\<close> that start at \<open>i\<close>, in the order a backtracking engine tries them
  (a greedy quantifier tries the longest run first). An index outside the text is not
  a word character.
\<close>

definition isWordAt :: "jsstring \<Rightarrow> nat \<Rightarrow> bool" where
  "isWordAt s i \<longleftrightarrow> i < length s \<and> isWordChar (s ! i)"

definition classRun :: "cclass \<Rightarrow> jsstring \<Rightarrow> nat \<Rightarrow> nat" where
  "classRun c s i = length (takeWhile (inClass c) (drop i s))"

fun matchLit :: "jsstring \<Rightarrow> jsstring \<Rightarrow> nat \<Rightarrow> nat list" where
  "matchLit w s i = (if take (length w) (drop i s) = w then [i + length w] else [])"

fun matchTerm :: "rterm \<Rightarrow> jsstring \<Rightarrow> nat \<Rightarrow> nat list" where
  "matchTerm Boundary s i =
     (if (0 < i \<and> isWordAt s (i - 1)) \<noteq> isWordAt s i then [i] else [])"
| "matchTerm (Lit w) s i = matchLit w s i"
| "matchTerm (Alt ws) s i = concat (map (\<lambda>w. matchLit w s i) ws)"
| "matchTerm (Star c) s i = rev [i ..< Suc (i + classRun c s i)]"
| "matchTerm (Plus c) s i = rev [Suc i ..< Suc (i + classRun c s i)]"

fun matchSeq :: "regexp \<Rightarrow> jsstring \<Rightarrow> nat \<Rightarrow> nat list" where
  "matchSeq [] s i = [i]"
| "matchSeq (t # ts) s i = concat (map (matchSeq ts s) (matchTerm t s i))"

definition matcher :: "regexp \<Rightarrow> jsstring \<Rightarrow> nat \<Rightarrow> nat option" where
  "matcher r s i = (case matchSeq r s i of [] \<Rightarrow> None | e # _ \<Rightarrow> Some e)"

text \<open>
  RegExpBuiltinExec for a global pattern: from \<open>lastIndex\<close> on, the first position
  at which the matcher succeeds; no match once \<open>lastIndex\<close> is beyond the text.
\<close>

function regExpExec :: "regexp \<Rightarrow> jsstring \<Rightarrow> nat \<Rightarrow> (nat \<times> nat) option" where
  "regExpExec r s lastIndex =
     (if length s < lastIndex then None
      else case matcher r s lastIndex of
             None \<Rightarrow> regExpExec r s (lastIndex + 1)
           | Some e \<Rightarrow> Some (lastIndex, e))"
  by pat_completeness auto
termination
  by (relation "measure (\<lambda>(r, s, i). Suc (length s) - i)") auto

declare regExpExec.simps [simp del]

text \<open>
  \<open>String.prototype.match\<close> with a global pattern: starting from \<open>lastIndex = 0\<close>,
  the spans of the successive matches; after an empty match \<open>lastIndex\<close> advances by
  one. The result is \<open>null\<close> when there is no match, else the array of the matched
  substrings; \<open>(text.match(re) || []).length\<close> is \<open>matchCount\<close>. The loop terminates
  because a match ends at or after its start (\<open>regExpExec_span\<close> below, where the
  termination proof of \<open>globalMatch\<close> is).
\<close>

function globalMatch :: "regexp \<Rightarrow> jsstring \<Rightarrow> nat \<Rightarrow> (nat \<times> nat) list" where
  "globalMatch r s lastIndex =
     (case regExpExec r s lastIndex of
        None \<Rightarrow> []
      | Some (k, e) \<Rightarrow> (k, e) # globalMatch r s (if e = k then e + 1 else e))"
  by pat_completeness auto

definition substring :: "jsstring \<Rightarrow> nat \<Rightarrow> nat \<Rightarrow> jsstring" where
  "substring s k e = take (e - k) (drop k s)"

definition string_match :: "jsstring \<Rightarrow> regexp \<Rightarrow> jsstring list option" where
  "string_match text r =
     (case globalMatch r text 0 of
        [] \<Rightarrow> None
      | m # ms \<Rightarrow> Some (map (\<lambda>(k, e). substring text k e) (m # ms)))"

definition orEmpty :: "'a list option \<Rightarrow> 'a list" where
  "orEmpty m = (case m of None \<Rightarrow> [] | Some a \<Rightarrow> a)"

definition matchCount :: "jsstring \<Rightarrow> regexp \<Rightarrow> nat" where
  "matchCount text r = length (orEmpty (string_match text r))"

section \<open>analyzeCode\<close>

text \<open>
  The switch on \<open>language\<close> compares strings; a tag in no arm leaves the three counters
  at their initial 0. The patterns of the arms:
  \<^item> javascript, typescript: \<^verbatim>\<open>/\bfunction\s+\w+\s*\(/g\<close>, \<^verbatim>\<open>/\bif\s*\(/g\<close>,
    \<^verbatim>\<open>/\b(for|while)\s*\(/g\<close>;
  \<^item> python: \<^verbatim>\<open>/\bdef\s+\w+\s*\(/g\<close>, \<^verbatim>\<open>/\bif\s+[^:]*:/g\<close>,
    \<^verbatim>\<open>/\b(for|while)\s+[^:]*:/g\<close>;
  \<^item> java, csharp, cpp, c: \<^verbatim>\<open>/\b\w+\s+\w+\s*\([^)]*\)\s*\{/g\<close>, \<^verbatim>\<open>/\bif\s*\(/g\<close>,
    \<^verbatim>\<open>/\b(for|while)\s*\(/g\<close>.
  The fields of the result are \<open>functions\<close>, \<open>ifs\<close> and \<open>loops\<close>.
\<close>

record stats =
  functions' :: nat
  ifs :: nat
  loops :: nat

definition analyzeCode :: "jsstring \<Rightarrow> jsstring \<Rightarrow> stats" where
  "analyzeCode text language =
     (if language = js ''javascript'' \<or> language = js ''typescript'' then
        \<lparr>functions' = matchCount text
           [Boundary, Lit (js ''function''), Plus SpaceClass, Plus WordClass,
            Star SpaceClass, Lit (js ''('')],
         ifs = matchCount text [Boundary, Lit (js ''if''), Star SpaceClass, Lit (js ''('')],
         loops = matchCount text
           [Boundary, Alt [js ''for'', js ''while''], Star SpaceClass, Lit (js ''('')]\<rparr>
      else if language = js ''python'' then
        \<lparr>functions' = matchCount text
           [Boundary, Lit (js ''def''), Plus SpaceClass, Plus WordClass,
            Star SpaceClass, Lit (js ''('')],
         ifs = matchCount text
           [Boundary, Lit (js ''if''), Plus SpaceClass, Star (NotChar 0x3A), Lit (js '':'')],
         loops = matchCount text
           [Boundary, Alt [js ''for'', js ''while''], Plus SpaceClass,
            Star (NotChar 0x3A), Lit (js '':'')]\<rparr>
      else if language = js ''java'' \<or> language = js ''csharp'' \<or>
              language = js ''cpp'' \<or> language = js ''c'' then
        \<lparr>functions' = matchCount text
           [Boundary, Plus WordClass, Plus SpaceClass, Plus WordClass, Star SpaceClass,
            Lit (js ''(''), Star (NotChar 0x29), Lit (js '')''), Star SpaceClass,
            Lit (js ''{'')],
         ifs = matchCount text [Boundary, Lit (js ''if''), Star SpaceClass, Lit (js ''('')],
         loops = matchCount text
           [Boundary, Alt [js ''for'', js ''while''], Star SpaceClass, Lit (js ''('')]\<rparr>
      else \<lparr>functions' = 0, ifs = 0, loops = 0\<rparr>)"


text \<open>
  The second copy of \<open>analyzeCode\<close> in the source file (after the document separator): the
  same switch, with \<open>'php'\<close> added to the last arm.
\<close>

definition analyzeCode2 :: "jsstring \<Rightarrow> jsstring \<Rightarrow> stats" where
  "analyzeCode2 text language =
     (if language = js ''javascript'' \<or> language = js ''typescript'' then
        \<lparr>functions' = matchCount text
           [Boundary, Lit (js ''function''), Plus SpaceClass, Plus WordClass,
            Star SpaceClass, Lit (js ''('')],
         ifs = matchCount text [Boundary, Lit (js ''if''), Star SpaceClass, Lit (js ''('')],
         loops = matchCount text
           [Boundary, Alt [js ''for'', js ''while''], Star SpaceClass, Lit (js ''('')]\<rparr>
      else if language = js ''python'' then
        \<lparr>functions' = matchCount text
           [Boundary, Lit (js ''def''), Plus SpaceClass, Plus WordClass,
            Star SpaceClass, Lit (js ''('')],
         ifs = matchCount text
           [Boundary, Lit (js ''if''), Plus SpaceClass, Star (NotChar 0x3A), Lit (js '':'')],
         loops = matchCount text
           [Boundary, Alt [js ''for'', js ''while''], Plus SpaceClass,
            Star (NotChar 0x3A), Lit (js '':'')]\<rparr>
      else if language = js ''java'' \<or> language = js ''csharp'' \<or>
              language = js ''cpp'' \<or> language = js ''c'' \<or> language = js ''php'' then
        \<lparr>functions' = matchCount text
           [Boundary, Plus WordClass, Plus SpaceClass, Plus WordClass, Star SpaceClass,
            Lit (js ''(''), Star (NotChar 0x29), Lit (js '')''), Star SpaceClass,
            Lit (js ''{'')],
         ifs = matchCount text [Boundary, Lit (js ''if''), Star SpaceClass, Lit (js ''('')],
         loops = matchCount text
           [Boundary, Alt [js ''for'', js ''while''], Star SpaceClass, Lit (js ''('')]\<rparr>
      else \<lparr>functions' = 0, ifs = 0, loops = 0\<rparr>)"

section \<open>The handlers that call analyzeCode\<close>

text \<open>
  The editor state the handlers read is \<open>vscode.window.activeTextEditor\<close>: absent, or an
  editor whose document has a text and a language identifier. What a handler does is the
  list of its effects, in order: a call of \<open>analyzeCode\<close>, an information message, an
  assignment to the text of the status bar item.
\<close>

record document =
  getText :: jsstring
  languageId :: jsstring

datatype effect =
    CallAnalyzeCode jsstring jsstring
  | ShowInformationMessage jsstring
  | SetStatusBarText jsstring

text \<open>A count interpolated into a template literal: its decimal digits.\<close>

function numberToString :: "nat \<Rightarrow> jsstring" where
  "numberToString n =
     (if n < 10 then [0x30 + of_nat n]
      else numberToString (n div 10) @ [0x30 + of_nat (n mod 10)])"
  by pat_completeness auto
termination
  by (relation "measure id") auto

declare numberToString.simps [simp del]

definition showStatsNotification :: "document option \<Rightarrow> effect list" where
  "showStatsNotification editor =
     (case editor of
        None \<Rightarrow> [ShowInformationMessage (js ''No active code file found'')]
      | Some doc \<Rightarrow>
          (let text = getText doc;
               language = languageId doc;
               stats = analyzeCode text language
           in [CallAnalyzeCode text language,
               ShowInformationMessage
                 (js ''Code Statistics: '' @ numberToString (functions' stats) @
                  js '' functions, '' @ numberToString (ifs stats) @
                  js '' if statements, '' @ numberToString (loops stats) @ js '' loops'')]))"

text \<open>
  The two Cyrillic literals of \<open>updateStatusBar\<close>, as code units: the placeholder
  (in English "Statistics: no active file") and the labels of the counts ("Functions",
  "Loops").
\<close>

definition noActiveFileText :: jsstring where
  "noActiveFileText =
     [0x0421, 0x0442, 0x0430, 0x0442, 0x0438, 0x0441, 0x0442, 0x0438, 0x043A, 0x0430,
      0x003A, 0x0020, 0x043D, 0x0435, 0x0442, 0x0020, 0x0430, 0x043A, 0x0442, 0x0438,
      0x0432, 0x043D, 0x043E, 0x0433, 0x043E, 0x0020, 0x0444, 0x0430, 0x0439, 0x043B,
      0x0430]"

definition functionsLabel :: jsstring where
  "functionsLabel = [0x0424, 0x0443, 0x043D, 0x043A, 0x0446, 0x0438, 0x0438]"

definition loopsLabel :: jsstring where
  "loopsLabel = [0x0426, 0x0438, 0x043A, 0x043B, 0x044B]"

definition updateStatusBar :: "document option \<Rightarrow> effect list" where
  "updateStatusBar editor =
     (case editor of
        None \<Rightarrow> [SetStatusBarText noActiveFileText]
      | Some doc \<Rightarrow>
          (let text = getText doc;
               language = languageId doc;
               stats = analyzeCode text language
           in [CallAnalyzeCode text language,
               SetStatusBarText
                 (js ''['' @ language @ js ''] '' @ functionsLabel @ js '': '' @
                  numberToString (functions' stats) @ js '' | If: '' @
                  numberToString (ifs stats) @ js '' | '' @ loopsLabel @ js '': '' @
                  numberToString (loops stats))]))"

section \<open>The patterns as the specification describes them\<close>

text \<open>
  The counts as the specification describes them, without a backtracking matcher: an
  occurrence of a pattern at position \<open>k\<close> is found by reading its tokens from left to
  right, each as long as it can be, and the count scans the text from left to right for
  occurrences that do not overlap.
\<close>

definition unitAt :: "jsstring \<Rightarrow> nat \<Rightarrow> code_unit \<Rightarrow> bool" where
  "unitAt s i x \<longleftrightarrow> i < length s \<and> s ! i = x"

definition precededByWord :: "jsstring \<Rightarrow> nat \<Rightarrow> bool" where
  "precededByWord s k \<longleftrightarrow> 0 < k \<and> isWordAt s (k - 1)"

text \<open>
  The number of non-overlapping occurrences from position \<open>i\<close> on: the leftmost one
  counts, and the scan goes on where it ends (one position further when it is empty).
\<close>

function countNonOverlapping :: "(jsstring \<Rightarrow> nat \<Rightarrow> nat option) \<Rightarrow> jsstring \<Rightarrow> nat \<Rightarrow> nat" where
  "countNonOverlapping occ s i =
     (if length s < i then 0
      else case occ s i of
             None \<Rightarrow> countNonOverlapping occ s (Suc i)
           | Some e \<Rightarrow> Suc (countNonOverlapping occ s (max e (Suc i))))"
  by pat_completeness auto
termination
  by (relation "measure (\<lambda>(occ, s, i). Suc (length s) - i)") auto

declare countNonOverlapping.simps [simp del]

text \<open>
  The function pattern of the curly-brace family at \<open>k\<close>: an identifier that starts at
  a word boundary (\<open>k\<close> to \<open>a\<close>), whitespace (to \<open>b\<close>), another identifier (to \<open>c\<close>),
  optional whitespace, an opening parenthesis (at \<open>d\<close>), the parameter list up to the
  first closing parenthesis (at \<open>f\<close>), optional whitespace and an opening brace (at
  \<open>g\<close>).
\<close>

definition curlyFunctionAt :: "jsstring \<Rightarrow> nat \<Rightarrow> nat option" where
  "curlyFunctionAt s k =
     (let a = k + classRun WordClass s k;
          b = a + classRun SpaceClass s a;
          c = b + classRun WordClass s b;
          d = c + classRun SpaceClass s c;
          f = Suc d + classRun (NotChar 0x29) s (Suc d);
          g = Suc f + classRun SpaceClass s (Suc f)
      in if \<not> precededByWord s k \<and> k < a \<and> a < b \<and> b < c \<and>
            unitAt s d 0x28 \<and> unitAt s f 0x29 \<and> unitAt s g 0x7B
         then Some (Suc g) else None)"

text \<open>
  The function pattern of the javascript arm at \<open>k\<close>: the keyword \<open>function\<close> at a
  word boundary, whitespace (to \<open>b\<close>), an identifier (to \<open>c\<close>), optional whitespace and
  an opening parenthesis (at \<open>d\<close>).
\<close>

definition keywordFunctionAt :: "jsstring \<Rightarrow> nat \<Rightarrow> nat option" where
  "keywordFunctionAt s k =
     (let a = k + 8;
          b = a + classRun SpaceClass s a;
          c = b + classRun WordClass s b;
          d = c + classRun SpaceClass s c
      in if \<not> precededByWord s k \<and> take 8 (drop k s) = js ''function'' \<and> a < b \<and> b < c \<and>
            unitAt s d 0x28
         then Some (Suc d) else None)"

text \<open>
  The conditional pattern of the python arm at \<open>k\<close>: the keyword \<open>if\<close> at a word
  boundary, at least one whitespace character, then the characters up to the first colon
  (at \<open>f\<close>).
\<close>

definition pythonIfAt :: "jsstring \<Rightarrow> nat \<Rightarrow> nat option" where
  "pythonIfAt s k =
     (let f = k + 2 + classRun (NotChar 0x3A) s (k + 2)
      in if \<not> precededByWord s k \<and> take 2 (drop k s) = js ''if'' \<and>
            k + 2 < length s \<and> isWhiteSpace (s ! (k + 2)) \<and> f < length s
         then Some (Suc f) else None)"

text \<open>
  The conditional pattern of the python arm as claim C4 words it: the keyword \<open>if\<close>
  followed by any non-colon characters up to a colon, with no whitespace required.
\<close>

definition claimedPythonIfAt :: "jsstring \<Rightarrow> nat \<Rightarrow> nat option" where
  "claimedPythonIfAt s k =
     (let f = k + 2 + classRun (NotChar 0x3A) s (k + 2)
      in if \<not> precededByWord s k \<and> take 2 (drop k s) = js ''if'' \<and> f < length s
         then Some (Suc f) else None)"

section \<open>Properties of the matcher\<close>

subsection \<open>Matches end at or after their start; the global match terminates\<close>

lemma matchLit_ge: "e \<in> set (matchLit w s i) \<Longrightarrow> i \<le> e"
  by (auto split: if_splits)

lemma matchTerm_ge: "e \<in> set (matchTerm t s i) \<Longrightarrow> i \<le> e"
  by (cases t) (auto split: if_splits)

lemma matchSeq_ge: "e \<in> set (matchSeq ts s i) \<Longrightarrow> i \<le> e"
proof (induction ts arbitrary: i e)
  case Nil
  then show ?case by simp
next
  case (Cons t ts)
  then obtain j where "j \<in> set (matchTerm t s i)" and "e \<in> set (matchSeq ts s j)"
    by auto
  then show ?case
    using Cons.IH [of e j] matchTerm_ge [of j t s i] by simp
qed

lemma matcher_ge: "matcher r s i = Some e \<Longrightarrow> i \<le> e"
  using matchSeq_ge [of e r s i]
  by (auto simp: matcher_def split: list.splits)

lemma regExpExec_span:
  "regExpExec r s i = Some (k, e) \<Longrightarrow> i \<le> k \<and> k \<le> length s \<and> k \<le> e"
proof (induction r s i rule: regExpExec.induct)
  case (1 r s lastIndex)
  show ?case
  proof (cases "matcher r s lastIndex")
    case None
    with "1.prems" have le: "\<not> length s < lastIndex"
      and rec: "regExpExec r s (lastIndex + 1) = Some (k, e)"
      by (auto simp: regExpExec.simps [of r s lastIndex] split: if_splits)
    from "1.IH" [OF le None rec] show ?thesis by simp
  next
    case (Some e')
    with "1.prems" have "\<not> length s < lastIndex" "k = lastIndex" "e = e'"
      by (auto simp: regExpExec.simps [of r s lastIndex] split: if_splits)
    with Some show ?thesis using matcher_ge [of r s lastIndex e'] by simp
  qed
qed

termination globalMatch
proof (relation "measure (\<lambda>(r, s, i). Suc (length s) - i)", goal_cases)
  case 1
  show ?case by simp
next
  case (2 r s lastIndex x2 k e)
  then have "regExpExec r s lastIndex = Some (k, e)" by simp
  from regExpExec_span [OF this] show ?case by auto
qed

declare globalMatch.simps [simp del]

subsection \<open>Counting, and the empty text\<close>

lemma matchCount_length: "matchCount text r = length (globalMatch r text 0)"
  by (simp add: matchCount_def orEmpty_def string_match_def split: list.splits)

text \<open>Every pattern of the source starts with \<open>\b\<close>, which the empty text never satisfies.\<close>

lemma matcher_empty_Boundary: "matcher (Boundary # ts) [] i = None"
  by (simp add: matcher_def isWordAt_def)

lemma regExpExec_empty_Boundary: "regExpExec (Boundary # ts) [] 0 = None"
proof -
  have "regExpExec (Boundary # ts) [] (Suc 0) = None"
    by (subst regExpExec.simps) simp
  then show ?thesis
    by (subst regExpExec.simps) (simp add: matcher_empty_Boundary)
qed

lemma matchCount_empty_Boundary: "matchCount [] (Boundary # ts) = 0"
  by (simp add: matchCount_length globalMatch.simps [of _ _ 0] regExpExec_empty_Boundary)

subsection \<open>Character classes and runs\<close>

lemma word_not_space: "isWordChar c \<Longrightarrow> \<not> isWhiteSpace c"
  by (auto simp: isWordChar_def isWhiteSpace_def word_le_nat_alt)

lemma space_not_punct: "isWhiteSpace c \<Longrightarrow> c \<noteq> 0x28 \<and> c \<noteq> 0x29 \<and> c \<noteq> 0x7B \<and> c \<noteq> 0x3A"
  by (auto simp: isWhiteSpace_def)

lemma word_not_punct: "isWordChar c \<Longrightarrow> c \<noteq> 0x28 \<and> c \<noteq> 0x29 \<and> c \<noteq> 0x7B \<and> c \<noteq> 0x3A"
  by (auto simp: isWordChar_def)

lemma classRun_in: "j < classRun c s i \<Longrightarrow> i + j < length s \<and> inClass c (s ! (i + j))"
proof -
  assume j: "j < classRun c s i"
  let ?tw = "takeWhile (inClass c) (drop i s)"
  have len: "length ?tw \<le> length (drop i s)" by (rule length_takeWhile_le)
  from j have jl: "j < length ?tw" by (simp add: classRun_def)
  then have "?tw ! j \<in> set ?tw" by simp
  then have "inClass c (?tw ! j)" by (rule set_takeWhileD [THEN conjunct2])
  moreover have "?tw ! j = drop i s ! j" using jl by (rule takeWhile_nth)
  moreover have "i + j < length s" using jl len by simp
  ultimately show ?thesis by simp
qed

lemma classRun_stop: "i + classRun c s i < length s \<Longrightarrow> \<not> inClass c (s ! (i + classRun c s i))"
proof -
  assume "i + classRun c s i < length s"
  then have "length (takeWhile (inClass c) (drop i s)) < length (drop i s)"
    by (simp add: classRun_def)
  then have "\<not> inClass c (drop i s ! length (takeWhile (inClass c) (drop i s)))"
    by (rule nth_length_takeWhile)
  moreover have "i \<le> length s" using \<open>i + classRun c s i < length s\<close> by simp
  ultimately show ?thesis by (simp add: classRun_def nth_drop)
qed

lemma classRun_zero: "classRun c s i = 0 \<longleftrightarrow> \<not> (i < length s \<and> inClass c (s ! i))"
  using classRun_in [of 0 c s i] classRun_stop [of i c s] by (cases "classRun c s i") auto

lemma classRun_pos: "0 < classRun c s i \<longleftrightarrow> i < length s \<and> inClass c (s ! i)"
  using classRun_zero [of c s i] by auto

lemma classRun_Suc:
  "i < length s \<Longrightarrow> inClass c (s ! i) \<Longrightarrow> classRun c s i = Suc (classRun c s (Suc i))"
proof -
  assume "i < length s" and c: "inClass c (s ! i)"
  then have "drop i s = s ! i # drop (Suc i) s" by (simp add: Cons_nth_drop_Suc)
  with c show ?thesis by (simp add: classRun_def)
qed

lemma concat_all_Nil: "(\<And>x. x \<in> set xs \<Longrightarrow> f x = []) \<Longrightarrow> concat (map f xs) = []"
  by (induction xs) auto

lemma star_commit:
  assumes "\<And>j. j < length s \<Longrightarrow> inClass c (s ! j) \<Longrightarrow> matchSeq ts s j = []"
  shows "matchSeq (Star c # ts) s i = matchSeq ts s (i + classRun c s i)"
proof -
  have "concat (map (matchSeq ts s) (rev [i ..< i + classRun c s i])) = []"
  proof (rule concat_all_Nil)
    fix x assume "x \<in> set (rev [i ..< i + classRun c s i])"
    then have "x - i < classRun c s i" and "x = i + (x - i)" by auto
    with classRun_in [of "x - i" c s i] show "matchSeq ts s x = []"
      using assms [of x] by simp
  qed
  then show ?thesis by simp
qed

lemma plus_commit:
  assumes "\<And>j. j < length s \<Longrightarrow> inClass c (s ! j) \<Longrightarrow> matchSeq ts s j = []"
  shows "matchSeq (Plus c # ts) s i =
           (if 0 < classRun c s i then matchSeq ts s (i + classRun c s i) else [])"
proof (cases "classRun c s i")
  case 0
  then show ?thesis by simp
next
  case (Suc n)
  have "concat (map (matchSeq ts s) (rev [Suc i ..< i + classRun c s i])) = []"
  proof (rule concat_all_Nil)
    fix x assume "x \<in> set (rev [Suc i ..< i + classRun c s i])"
    then have "x - i < classRun c s i" and "x = i + (x - i)" by auto
    with classRun_in [of "x - i" c s i] show "matchSeq ts s x = []"
      using assms [of x] by simp
  qed
  moreover have "[Suc i ..< Suc (i + classRun c s i)] = [Suc i ..< i + classRun c s i] @ [i + classRun c s i]"
    using Suc by simp
  ultimately show ?thesis using Suc by simp
qed

lemma lit1: "matchSeq (Lit [x] # ts) s i = (if unitAt s i x then matchSeq ts s (Suc i) else [])"
proof (cases "i < length s")
  case True
  then have "drop i s = s ! i # drop (Suc i) s" by (simp add: Cons_nth_drop_Suc)
  with True show ?thesis by (auto simp: unitAt_def)
next
  case False
  then show ?thesis by (simp add: unitAt_def)
qed

lemma plus_fail: "\<not> (i < length s \<and> inClass c (s ! i)) \<Longrightarrow> matchSeq (Plus c # ts) s i = []"
  using classRun_zero [of c s i] by simp

lemma star_lit:
  assumes "\<not> inClass c x"
  shows "matchSeq (Star c # Lit [x] # ts) s i =
           (if unitAt s (i + classRun c s i) x then matchSeq ts s (Suc (i + classRun c s i)) else [])"
proof -
  have "matchSeq (Star c # Lit [x] # ts) s i = matchSeq (Lit [x] # ts) s (i + classRun c s i)"
  proof (rule star_commit)
    fix j assume "j < length s" and "inClass c (s ! j)"
    with assms have "\<not> unitAt s j x" by (auto simp: unitAt_def)
    then show "matchSeq (Lit [x] # ts) s j = []" by (simp only: lit1 if_False)
  qed
  then show ?thesis by (simp only: lit1)
qed

lemma plus_then_plus:
  assumes "\<And>u. inClass c u \<Longrightarrow> \<not> inClass c' u"
  shows "matchSeq (Plus c # Plus c' # ts) s i =
           (if 0 < classRun c s i then matchSeq (Plus c' # ts) s (i + classRun c s i) else [])"
proof (rule plus_commit)
  fix j assume "j < length s" and "inClass c (s ! j)"
  with assms show "matchSeq (Plus c' # ts) s j = []" by (intro plus_fail) auto
qed

lemma plus_then_star_lit:
  assumes "\<And>u. inClass c u \<Longrightarrow> \<not> inClass c' u \<and> u \<noteq> x" and "\<not> inClass c' x"
  shows "matchSeq (Plus c # Star c' # Lit [x] # ts) s i =
           (if 0 < classRun c s i then matchSeq (Star c' # Lit [x] # ts) s (i + classRun c s i)
            else [])"
proof (rule plus_commit)
  fix j assume j: "j < length s" and "inClass c (s ! j)"
  with assms(1) have "\<not> inClass c' (s ! j)" and "s ! j \<noteq> x" by auto
  then have "classRun c' s j = 0" and "\<not> unitAt s j x"
    by (simp_all add: classRun_zero unitAt_def)
  then show "matchSeq (Star c' # Lit [x] # ts) s j = []"
    by (simp only: star_lit [OF assms(2)] add_0_right if_False)
qed

lemma word_then_space:
  "matchSeq (Plus WordClass # Plus SpaceClass # ts) s i =
     (if 0 < classRun WordClass s i
      then matchSeq (Plus SpaceClass # ts) s (i + classRun WordClass s i) else [])"
  by (rule plus_then_plus) (simp add: word_not_space)

lemma space_then_word:
  "matchSeq (Plus SpaceClass # Plus WordClass # ts) s i =
     (if 0 < classRun SpaceClass s i
      then matchSeq (Plus WordClass # ts) s (i + classRun SpaceClass s i) else [])"
  by (rule plus_then_plus) (auto dest: word_not_space)

lemma word_then_paren:
  "matchSeq (Plus WordClass # Star SpaceClass # Lit [0x28] # ts) s i =
     (if 0 < classRun WordClass s i
      then matchSeq (Star SpaceClass # Lit [0x28] # ts) s (i + classRun WordClass s i) else [])"
  by (rule plus_then_star_lit) (auto dest: word_not_space word_not_punct space_not_punct)

lemma space_then_unit:
  "\<not> isWhiteSpace x \<Longrightarrow> matchSeq (Star SpaceClass # Lit [x] # ts) s i =
     (if unitAt s (i + classRun SpaceClass s i) x
      then matchSeq ts s (Suc (i + classRun SpaceClass s i)) else [])"
  by (rule star_lit) simp

lemma params_then_close:
  "matchSeq (Star (NotChar x) # Lit [x] # ts) s i =
     (if unitAt s (i + classRun (NotChar x) s i) x
      then matchSeq ts s (Suc (i + classRun (NotChar x) s i)) else [])"
  by (rule star_lit) simp

lemma not_space_punct: "\<not> isWhiteSpace 0x28" "\<not> isWhiteSpace 0x29" "\<not> isWhiteSpace 0x7B"
  by (simp_all add: isWhiteSpace_def)


lemma boundary_step:
  "matchSeq (Boundary # ts) s i =
     (if precededByWord s i \<noteq> isWordAt s i then matchSeq ts s i else [])"
  by (simp add: precededByWord_def)

lemma lit_step:
  "matchSeq (Lit w # ts) s i =
     (if take (length w) (drop i s) = w then matchSeq ts s (i + length w) else [])"
  by simp

lemma matcher_curlyFunction:
  "matcher [Boundary, Plus WordClass, Plus SpaceClass, Plus WordClass, Star SpaceClass,
            Lit (js ''(''), Star (NotChar 0x29), Lit (js '')''), Star SpaceClass,
            Lit (js ''{'')] s k = curlyFunctionAt s k"
proof -
  define a where "a = k + classRun WordClass s k"
  define b where "b = a + classRun SpaceClass s a"
  define c where "c = b + classRun WordClass s b"
  define d where "d = c + classRun SpaceClass s c"
  define f where "f = Suc d + classRun (NotChar 0x29) s (Suc d)"
  define g where "g = Suc f + classRun SpaceClass s (Suc f)"
  have m: "matchSeq [Boundary, Plus WordClass, Plus SpaceClass, Plus WordClass, Star SpaceClass,
            Lit (js ''(''), Star (NotChar 0x29), Lit (js '')''), Star SpaceClass,
            Lit (js ''{'')] s k =
          (if precededByWord s k \<noteq> isWordAt s k \<and> k < a \<and> a < b \<and> b < c \<and>
              unitAt s d 0x28 \<and> unitAt s f 0x29 \<and> unitAt s g 0x7B
           then [Suc g] else [])"
    unfolding g_def f_def d_def c_def b_def a_def
    by (simp add: js_def boundary_step word_then_space space_then_word word_then_paren
        space_then_unit params_then_close not_space_punct del: matchSeq.simps(2))
  have w: "isWordAt s k \<longleftrightarrow> k < a"
    by (simp add: a_def isWordAt_def classRun_pos)
  have spec: "curlyFunctionAt s k =
          (if \<not> precededByWord s k \<and> k < a \<and> a < b \<and> b < c \<and>
              unitAt s d 0x28 \<and> unitAt s f 0x29 \<and> unitAt s g 0x7B
           then Some (Suc g) else None)"
    unfolding g_def f_def d_def c_def b_def a_def
    by (simp add: curlyFunctionAt_def Let_def)
  show ?thesis
    unfolding matcher_def m spec using w by auto
qed

lemma lit_first:
  assumes "take n (drop k s) = x # w"
  shows "k < length s \<and> s ! k = x"
proof -
  from assms have "drop k s \<noteq> []" by auto
  then have k: "k < length s" by simp
  then have "drop k s = s ! k # drop (Suc k) s" by (simp add: Cons_nth_drop_Suc)
  with assms k show ?thesis by (cases n) simp_all
qed

lemma word_after_function: "take 8 (drop k s) = js ''function'' \<Longrightarrow> isWordAt s k"
proof -
  assume "take 8 (drop k s) = js ''function''"
  then have "take 8 (drop k s) = 0x66 # js ''unction''" by (simp add: js_def)
  from lit_first [OF this] show ?thesis by (simp add: isWordAt_def isWordChar_def)
qed

lemma word_after_if: "take 2 (drop k s) = js ''if'' \<Longrightarrow> isWordAt s k"
proof -
  assume "take 2 (drop k s) = js ''if''"
  then have "take 2 (drop k s) = 0x69 # js ''f''" by (simp add: js_def)
  from lit_first [OF this] show ?thesis by (simp add: isWordAt_def isWordChar_def)
qed

lemma matcher_keywordFunction:
  "matcher [Boundary, Lit (js ''function''), Plus SpaceClass, Plus WordClass,
            Star SpaceClass, Lit (js ''('')] s k = keywordFunctionAt s k"
proof -
  define a where "a = k + 8"
  define b where "b = a + classRun SpaceClass s a"
  define c where "c = b + classRun WordClass s b"
  define d where "d = c + classRun SpaceClass s c"
  have len: "length (js ''function'') = 8" by (simp add: js_def)
  have paren: "js ''('' = [0x28]" by (simp add: js_def)
  have m: "matchSeq [Boundary, Lit (js ''function''), Plus SpaceClass, Plus WordClass,
            Star SpaceClass, Lit (js ''('')] s k =
          (if precededByWord s k \<noteq> isWordAt s k \<and> take 8 (drop k s) = js ''function'' \<and>
              a < b \<and> b < c \<and> unitAt s d 0x28
           then [Suc d] else [])"
    unfolding d_def c_def b_def a_def
    by (simp add: len paren boundary_step lit_step space_then_word word_then_paren
        space_then_unit not_space_punct del: matchSeq.simps(2))
  have spec: "keywordFunctionAt s k =
          (if \<not> precededByWord s k \<and> take 8 (drop k s) = js ''function'' \<and>
              a < b \<and> b < c \<and> unitAt s d 0x28
           then Some (Suc d) else None)"
    unfolding d_def c_def b_def a_def
    by (simp add: keywordFunctionAt_def Let_def)
  show ?thesis
    unfolding matcher_def m spec using word_after_function [of k s] by auto
qed

lemma classRun_ge:
  "(\<And>m. m < d \<Longrightarrow> p + m < length s \<and> inClass c (s ! (p + m))) \<Longrightarrow> d \<le> classRun c s p"
proof (induction d arbitrary: p)
  case 0
  then show ?case by simp
next
  case (Suc d)
  from Suc.prems [of 0] have p: "p < length s" "inClass c (s ! p)" by simp_all
  have "d \<le> classRun c s (Suc p)"
  proof (rule Suc.IH)
    fix m assume "m < d"
    with Suc.prems [of "Suc m"] show "Suc p + m < length s \<and> inClass c (s ! (Suc p + m))"
      by simp
  qed
  with classRun_Suc [OF p] show ?case by simp
qed

lemma classRun_shift: "d \<le> classRun c s p \<Longrightarrow> p + d + classRun c s (p + d) = p + classRun c s p"
proof (induction d arbitrary: p)
  case 0
  then show ?case by simp
next
  case (Suc d)
  then have "0 < classRun c s p" by simp
  then have p: "p < length s" "inClass c (s ! p)" by (simp_all add: classRun_pos)
  from classRun_Suc [OF p] Suc.prems have "d \<le> classRun c s (Suc p)" by simp
  from Suc.IH [OF this] classRun_Suc [OF p] show ?case by simp
qed

lemma classRun_mono:
  assumes "\<And>u. inClass c u \<Longrightarrow> inClass c' u"
  shows "classRun c s p \<le> classRun c' s p"
proof (rule classRun_ge)
  fix m assume "m < classRun c s p"
  from classRun_in [OF this] assms
  show "p + m < length s \<and> inClass c' (s ! (p + m))" by simp
qed

lemma upto_stop:
  "matchSeq [Star (NotChar x), Lit [x]] s j =
     (if j + classRun (NotChar x) s j < length s then [Suc (j + classRun (NotChar x) s j)]
      else [])"
  using classRun_stop [of j "NotChar x" s]
  by (auto simp: params_then_close unitAt_def simp del: matchSeq.simps(2))

lemma first_of_constant:
  assumes "\<And>x. x \<in> set xs \<Longrightarrow> g x = L" and "xs \<noteq> []"
  shows "(case concat (map g xs) of [] \<Rightarrow> None | e # _ \<Rightarrow> Some e) =
         (case L of [] \<Rightarrow> None | e # _ \<Rightarrow> Some e)"
proof (cases L)
  case Nil
  have "concat (map g xs) = []"
  proof (rule concat_all_Nil)
    fix x assume "x \<in> set xs"
    with assms(1) Nil show "g x = []" by simp
  qed
  with Nil show ?thesis by (simp only: list.case)
next
  case (Cons e l)
  from assms(2) obtain x xs' where xs: "xs = x # xs'" by (cases xs) auto
  with assms(1) [of x] Cons show ?thesis by simp
qed

lemma space_then_upto_stop:
  "(case matchSeq [Plus SpaceClass, Star (NotChar 0x3A), Lit [0x3A]] s p of
      [] \<Rightarrow> None | e # _ \<Rightarrow> Some e) =
   (if p < length s \<and> isWhiteSpace (s ! p) \<and> p + classRun (NotChar 0x3A) s p < length s
    then Some (Suc (p + classRun (NotChar 0x3A) s p)) else None)"
proof (cases "p < length s \<and> isWhiteSpace (s ! p)")
  case False
  then have "matchSeq [Plus SpaceClass, Star (NotChar 0x3A), Lit [0x3A]] s p = []"
    by (intro plus_fail) simp
  with False show ?thesis by (auto simp del: matchSeq.simps(2))
next
  case True
  let ?n = "classRun SpaceClass s p"
  let ?f = "p + classRun (NotChar 0x3A) s p"
  let ?L = "if ?f < length s then [Suc ?f] else []"
  have le: "?n \<le> classRun (NotChar 0x3A) s p"
    by (rule classRun_mono) (auto dest: space_not_punct)
  have pos: "0 < ?n" using True by (simp add: classRun_pos)
  have "(case concat (map (matchSeq [Star (NotChar 0x3A), Lit [0x3A]] s)
                (rev [Suc p ..< Suc (p + ?n)])) of [] \<Rightarrow> None | e # _ \<Rightarrow> Some e) =
        (case ?L of [] \<Rightarrow> None | e # _ \<Rightarrow> Some e)"
  proof (rule first_of_constant)
    fix j assume "j \<in> set (rev [Suc p ..< Suc (p + ?n)])"
    then have "j - p \<le> classRun (NotChar 0x3A) s p" and "j = p + (j - p)"
      using le by auto
    with classRun_shift [of "j - p" "NotChar 0x3A" s p]
    have "j + classRun (NotChar 0x3A) s j = ?f" by simp
    then show "matchSeq [Star (NotChar 0x3A), Lit [0x3A]] s j = ?L"
      by (simp only: upto_stop)
  next
    from pos show "rev [Suc p ..< Suc (p + ?n)] \<noteq> []" by simp
  qed
  moreover have "matchSeq [Plus SpaceClass, Star (NotChar 0x3A), Lit [0x3A]] s p =
      concat (map (matchSeq [Star (NotChar 0x3A), Lit [0x3A]] s) (rev [Suc p ..< Suc (p + ?n)]))"
    by (simp del: matchSeq.simps(2) add: matchSeq.simps(2) [of "Plus SpaceClass"])
  ultimately show ?thesis using True by (simp del: matchSeq.simps(2) upt_Suc)
qed

lemma matcher_pythonIf:
  "matcher [Boundary, Lit (js ''if''), Plus SpaceClass, Star (NotChar 0x3A), Lit (js '':'')] s k =
     pythonIfAt s k"
proof -
  have len: "length (js ''if'') = 2" by (simp add: js_def)
  have colon: "js '':'' = [0x3A]" by (simp add: js_def)
  have "matchSeq [Boundary, Lit (js ''if''), Plus SpaceClass, Star (NotChar 0x3A),
                  Lit (js '':'')] s k =
        (if precededByWord s k \<noteq> isWordAt s k \<and> take 2 (drop k s) = js ''if''
         then matchSeq [Plus SpaceClass, Star (NotChar 0x3A), Lit [0x3A]] s (k + 2) else [])"
    by (simp add: len colon boundary_step lit_step del: matchSeq.simps(2))
  then have "matcher [Boundary, Lit (js ''if''), Plus SpaceClass, Star (NotChar 0x3A),
                  Lit (js '':'')] s k =
        (if precededByWord s k \<noteq> isWordAt s k \<and> take 2 (drop k s) = js ''if''
         then (if k + 2 < length s \<and> isWhiteSpace (s ! (k + 2)) \<and>
                  k + 2 + classRun (NotChar 0x3A) s (k + 2) < length s
               then Some (Suc (k + 2 + classRun (NotChar 0x3A) s (k + 2))) else None)
         else None)"
    by (simp add: matcher_def space_then_upto_stop del: matchSeq.simps(2))
  then show ?thesis
    using word_after_if [of k s] by (auto simp: pythonIfAt_def Let_def)
qed

lemma globalMatch_count:
  "length (globalMatch r s i) = countNonOverlapping (matcher r) s i"
proof (induction "matcher r" s i rule: countNonOverlapping.induct)
  case (1 s i)
  show ?case
  proof (cases "length s < i")
    case True
    then have "regExpExec r s i = None" by (simp add: regExpExec.simps [of r s i])
    with True show ?thesis
      by (simp add: globalMatch.simps [of r s i] countNonOverlapping.simps [of _ s i])
  next
    case False
    show ?thesis
    proof (cases "matcher r s i")
      case None
      with False have "regExpExec r s i = regExpExec r s (Suc i)"
        by (simp add: regExpExec.simps [of r s i])
      then have "globalMatch r s i = globalMatch r s (Suc i)"
        by (simp add: globalMatch.simps [of r s i] globalMatch.simps [of r s "Suc i"])
      with "1.hyps"(1) [OF False None] False None show ?thesis
        by (simp add: countNonOverlapping.simps [of _ s i])
    next
      case (Some e)
      with False have ex: "regExpExec r s i = Some (i, e)"
        by (simp add: regExpExec.simps [of r s i])
      from matcher_ge [OF Some] have "(if e = i then e + 1 else e) = max e (Suc i)"
        by auto
      with ex have "globalMatch r s i = (i, e) # globalMatch r s (max e (Suc i))"
        by (simp add: globalMatch.simps [of r s i])
      with "1.hyps"(2) [OF False Some] False Some show ?thesis
        by (simp add: countNonOverlapping.simps [of _ s i])
    qed
  qed
qed

lemma matchCount_occurrences:
  "(\<And>s k. matcher r s k = occ s k) \<Longrightarrow> matchCount text r = countNonOverlapping occ text 0"
proof -
  assume "\<And>s k. matcher r s k = occ s k"
  then have "matcher r = occ" by (intro ext)
  then show ?thesis by (simp add: matchCount_length globalMatch_count)
qed

section \<open>The claims\<close>

text \<open>
  C1, as stated: for every text and every tag among javascript, typescript, java, csharp,
  cpp and c, the functions count is the number of non-overlapping occurrences of the
  two-identifier pattern (identifier, whitespace, identifier, parenthesised parameter
  list, opening brace). For javascript it is not: a C-style definition has one such
  occurrence and a functions count of zero.
\<close>

theorem C1_javascript_counterexample:
  "functions' (analyzeCode (js ''int add(int a, int b) { return a+b; }'') (js ''javascript'')) \<noteq>
   countNonOverlapping curlyFunctionAt (js ''int add(int a, int b) { return a+b; }'') 0"
proof -
  have "functions' (analyzeCode (js ''int add(int a, int b) { return a+b; }'')
          (js ''javascript'')) = 0"
    by code_simp
  moreover have
    "countNonOverlapping curlyFunctionAt (js ''int add(int a, int b) { return a+b; }'') 0 = 1"
    by code_simp
  ultimately show ?thesis by simp
qed

text \<open>
  C1, amended: for every text, the functions count is the number of non-overlapping
  occurrences of the two-identifier pattern for the tags java, csharp, cpp and c; for the
  tags javascript and typescript it is the number of non-overlapping occurrences of the
  keyword \<open>function\<close> followed by whitespace, an identifier, optional whitespace and an
  opening parenthesis.
\<close>

theorem C1_functions_count:
  "(language \<in> {js ''java'', js ''csharp'', js ''cpp'', js ''c''} \<longrightarrow>
      functions' (analyzeCode text language) = countNonOverlapping curlyFunctionAt text 0) \<and>
   (language \<in> {js ''javascript'', js ''typescript''} \<longrightarrow>
      functions' (analyzeCode text language) = countNonOverlapping keywordFunctionAt text 0)"
proof (intro conjI impI)
  assume "language \<in> {js ''java'', js ''csharp'', js ''cpp'', js ''c''}"
  then have "functions' (analyzeCode text language) =
      matchCount text
        [Boundary, Plus WordClass, Plus SpaceClass, Plus WordClass, Star SpaceClass,
         Lit (js ''(''), Star (NotChar 0x29), Lit (js '')''), Star SpaceClass, Lit (js ''{'')]"
    by (auto simp: analyzeCode_def js_def)
  also have "\<dots> = countNonOverlapping curlyFunctionAt text 0"
    by (rule matchCount_occurrences) (rule matcher_curlyFunction)
  finally show "functions' (analyzeCode text language) =
      countNonOverlapping curlyFunctionAt text 0" .
next
  assume "language \<in> {js ''javascript'', js ''typescript''}"
  then have "functions' (analyzeCode text language) =
      matchCount text
        [Boundary, Lit (js ''function''), Plus SpaceClass, Plus WordClass,
         Star SpaceClass, Lit (js ''('')]"
    by (auto simp: analyzeCode_def)
  also have "\<dots> = countNonOverlapping keywordFunctionAt text 0"
    by (rule matchCount_occurrences) (rule matcher_keywordFunction)
  finally show "functions' (analyzeCode text language) =
      countNonOverlapping keywordFunctionAt text 0" .
qed

theorem C1_functions_count_witness:
  "js ''cpp'' \<in> {js ''java'', js ''csharp'', js ''cpp'', js ''c''} \<and>
   functions' (analyzeCode (js ''int add(int a, int b) { return a+b; }'') (js ''cpp'')) = 1 \<and>
   countNonOverlapping curlyFunctionAt (js ''int add(int a, int b) { return a+b; }'') 0 = 1 \<and>
   js ''javascript'' \<in> {js ''javascript'', js ''typescript''} \<and>
   functions' (analyzeCode (js ''function test() { if (true) { } }'') (js ''javascript'')) = 1 \<and>
   countNonOverlapping keywordFunctionAt (js ''function test() { if (true) { } }'') 0 = 1"
proof -
  have "functions' (analyzeCode (js ''int add(int a, int b) { return a+b; }'') (js ''cpp'')) = 1"
    by code_simp
  moreover have
    "functions' (analyzeCode (js ''function test() { if (true) { } }'') (js ''javascript'')) = 1"
    by code_simp
  ultimately show ?thesis
    using C1_functions_count [of "js ''cpp''" "js ''int add(int a, int b) { return a+b; }''"]
      C1_functions_count [of "js ''javascript''" "js ''function test() { if (true) { } }''"]
    by simp
qed

text \<open>
  C2: for every text and every language tag outside javascript, typescript, python, java,
  csharp, cpp, c and php, \<open>analyzeCode\<close> returns zero for the three counts (the switch has
  no default arm, and the function has no way to fail). Both copies of the function do so.
\<close>

theorem C2_unknown_tag_zero:
  assumes "language \<notin> set (map js [''javascript'', ''typescript'', ''python'', ''java'',
             ''csharp'', ''cpp'', ''c'', ''php''])"
  shows "analyzeCode text language = \<lparr>functions' = 0, ifs = 0, loops = 0\<rparr> \<and>
         analyzeCode2 text language = \<lparr>functions' = 0, ifs = 0, loops = 0\<rparr>"
  using assms by (simp add: analyzeCode_def analyzeCode2_def)

theorem C2_unknown_tag_zero_witness:
  "js ''ruby'' \<notin> set (map js [''javascript'', ''typescript'', ''python'', ''java'',
      ''csharp'', ''cpp'', ''c'', ''php'']) \<and>
   analyzeCode (js ''some text'') (js ''ruby'') = \<lparr>functions' = 0, ifs = 0, loops = 0\<rparr> \<and>
   analyzeCode2 (js ''some text'') (js ''ruby'') = \<lparr>functions' = 0, ifs = 0, loops = 0\<rparr>"
proof -
  have h: "js ''ruby'' \<notin> set (map js [''javascript'', ''typescript'', ''python'', ''java'',
      ''csharp'', ''cpp'', ''c'', ''php''])"
    by (simp add: js_def)
  from h C2_unknown_tag_zero [OF h, of "js ''some text''"] show ?thesis by simp
qed

text \<open>
  C3: for every language tag, known or not, \<open>analyzeCode\<close> of the empty text returns zero
  for the three counts, in both copies of the function.
\<close>

theorem C3_empty_text_zero:
  "analyzeCode [] language = \<lparr>functions' = 0, ifs = 0, loops = 0\<rparr> \<and>
   analyzeCode2 [] language = \<lparr>functions' = 0, ifs = 0, loops = 0\<rparr>"
  by (simp add: analyzeCode_def analyzeCode2_def matchCount_empty_Boundary)

text \<open>
  C4, as stated: for the tag python the ifs count is the number of non-overlapping
  occurrences of the keyword \<open>if\<close> followed by non-colon characters up to a colon, so that
  \<open>if(x):\<close> is counted. It is not counted: the pattern of the source asks for whitespace
  after \<open>if\<close>.
\<close>

theorem C4_no_whitespace_counterexample:
  "ifs (analyzeCode (js ''if(x):'') (js ''python'')) \<noteq>
   countNonOverlapping claimedPythonIfAt (js ''if(x):'') 0"
proof -
  have "ifs (analyzeCode (js ''if(x):'') (js ''python'')) = 0"
    by code_simp
  moreover have "countNonOverlapping claimedPythonIfAt (js ''if(x):'') 0 = 1"
    by code_simp
  ultimately show ?thesis by simp
qed

text \<open>
  C4, amended: for the tag python and every text, the ifs count is the number of
  non-overlapping occurrences of the keyword \<open>if\<close> at a word boundary, followed by at least
  one whitespace character and then any non-colon characters up to a colon; \<open>if(x):\<close>,
  with no whitespace after \<open>if\<close>, is not counted.
\<close>

theorem C4_python_ifs_count:
  "ifs (analyzeCode text (js ''python'')) = countNonOverlapping pythonIfAt text 0 \<and>
   ifs (analyzeCode (js ''if(x):'') (js ''python'')) = 0"
proof
  have "ifs (analyzeCode text (js ''python'')) =
      matchCount text
        [Boundary, Lit (js ''if''), Plus SpaceClass, Star (NotChar 0x3A), Lit (js '':'')]"
    by (simp add: analyzeCode_def js_def)
  also have "\<dots> = countNonOverlapping pythonIfAt text 0"
    by (rule matchCount_occurrences) (rule matcher_pythonIf)
  finally show "ifs (analyzeCode text (js ''python'')) = countNonOverlapping pythonIfAt text 0" .
next
  show "ifs (analyzeCode (js ''if(x):'') (js ''python'')) = 0"
    by code_simp
qed

theorem C4_python_ifs_count_witness:
  "ifs (analyzeCode (js ''if x:'') (js ''python'')) = 1 \<and>
   countNonOverlapping pythonIfAt (js ''if x:'') 0 = 1"
proof -
  have "ifs (analyzeCode (js ''if x:'') (js ''python'')) = 1"
    by code_simp
  with C4_python_ifs_count [of "js ''if x:''"] show ?thesis by simp
qed

text \<open>
  C5: \<open>analyzeCode("function test() { if (true) { } }", "javascript")\<close> is
  one function, one if, no loop.
\<close>

theorem C5_javascript_example:
  "analyzeCode (js ''function test() { if (true) { } }'') (js ''javascript'') =
     \<lparr>functions' = 1, ifs = 1, loops = 0\<rparr>"
  by code_simp

text \<open>
  C6: \<open>analyzeCode("for (i=0;i<10;i++) { while(x) {} }", "java")\<close> is no function, no
  if and two loops: the loop headers do not match the function pattern of the java arm.
\<close>

theorem C6_java_example:
  "analyzeCode (js ''for (i=0;i<10;i++) { while(x) {} }'') (js ''java'') =
     \<lparr>functions' = 0, ifs = 0, loops = 2\<rparr>"
  by code_simp

text \<open>
  C7: \<open>analyzeCode("def foo():\n    if x:\n        pass", "python")\<close> is one function, one
  if, no loop.
\<close>

theorem C7_python_example:
  "analyzeCode (js ''def foo():\<newline>    if x:\<newline>        pass'') (js ''python'') =
     \<lparr>functions' = 1, ifs = 1, loops = 0\<rparr>"
  by code_simp

text \<open>
  C8, as the specification words it: with no active document both handlers surface the
  information message "no active file found". Neither does: no handler shows a message
  with that text.
\<close>

theorem C8_message_counterexample:
  "ShowInformationMessage (js ''no active file found'') \<notin> set (showStatsNotification None) \<and>
   ShowInformationMessage (js ''no active file found'') \<notin> set (updateStatusBar None)"
  by (simp add: showStatsNotification_def updateStatusBar_def js_def)

text \<open>
  C8, amended: with no active document neither handler calls \<open>analyzeCode\<close>;
  \<open>showStatsNotification\<close> shows the one information message "No active code file found",
  and \<open>updateStatusBar\<close> shows no message: it sets the text of the status bar item to its
  fixed placeholder.
\<close>

theorem C8_no_active_document:
  "showStatsNotification None = [ShowInformationMessage (js ''No active code file found'')] \<and>
   updateStatusBar None = [SetStatusBarText noActiveFileText] \<and>
   CallAnalyzeCode text language \<notin> set (showStatsNotification None) \<and>
   CallAnalyzeCode text language \<notin> set (updateStatusBar None)"
  by (simp add: showStatsNotification_def updateStatusBar_def)

text \<open>
  C10, as stated: the two copies of \<open>analyzeCode\<close> agree on every input, also on the tag
  php. They differ there: on \<open>if (x) {}\<close> the first copy counts nothing, the second one if.
\<close>

theorem C10_php_counterexample:
  "analyzeCode (js ''if (x) {}'') (js ''php'') \<noteq> analyzeCode2 (js ''if (x) {}'') (js ''php'')"
proof -
  have "ifs (analyzeCode (js ''if (x) {}'') (js ''php'')) = 0"
    by code_simp
  moreover have "ifs (analyzeCode2 (js ''if (x) {}'') (js ''php'')) = 1"
    by code_simp
  ultimately show ?thesis by auto
qed

text \<open>
  C10, amended: the two copies agree on every text for every language tag but php; for
  php the first copy returns zero counts, and the second what the first returns for java.
\<close>

theorem C10_copies_agree_but_php:
  "(language \<noteq> js ''php'' \<longrightarrow> analyzeCode2 text language = analyzeCode text language) \<and>
   analyzeCode text (js ''php'') = \<lparr>functions' = 0, ifs = 0, loops = 0\<rparr> \<and>
   analyzeCode2 text (js ''php'') = analyzeCode text (js ''java'')"
proof (intro conjI impI)
  assume "language \<noteq> js ''php''"
  then show "analyzeCode2 text language = analyzeCode text language"
    by (simp add: analyzeCode_def analyzeCode2_def)
next
  show "analyzeCode text (js ''php'') = \<lparr>functions' = 0, ifs = 0, loops = 0\<rparr>"
    by (simp add: analyzeCode_def js_def)
next
  show "analyzeCode2 text (js ''php'') = analyzeCode text (js ''java'')"
    by (simp add: analyzeCode_def analyzeCode2_def js_def)
qed

theorem C10_copies_agree_but_php_witness:
  "js ''python'' \<noteq> js ''php'' \<and>
   analyzeCode2 (js ''if x:'') (js ''python'') = analyzeCode (js ''if x:'') (js ''python'') \<and>
   analyzeCode (js ''if (x) {}'') (js ''php'') = \<lparr>functions' = 0, ifs = 0, loops = 0\<rparr> \<and>
   analyzeCode2 (js ''if (x) {}'') (js ''php'') = analyzeCode (js ''if (x) {}'') (js ''java'')"
proof -
  have h: "js ''python'' \<noteq> js ''php''"
    by (simp add: js_def)
  from h C10_copies_agree_but_php [of "js ''python''" "js ''if x:''"]
    C10_copies_agree_but_php [of "js ''php''" "js ''if (x) {}''"]
  show ?thesis by simp
qed

end
